theory Spec2Isabelle
  imports Complex_Main
begin

section \<open>Strings\<close>

text \<open>
  A Python \<open>str\<close> is modelled as a HOL \<open>string\<close> whose characters are the code points
  below 256 (ASCII and Latin-1). On that range \<open>str.lower\<close> moves \<open>A-Z\<close> and the
  capital letters \<open>U+00C0..U+00DE\<close> (without the multiplication sign \<open>U+00D7\<close>) up by 32
  and leaves every other character alone.
\<close>

definition lower_char :: "char \<Rightarrow> char" where
  "lower_char c =
     (let n = (of_char c :: nat)
      in if (65 \<le> n \<and> n \<le> 90) \<or> (192 \<le> n \<and> n \<le> 222 \<and> n \<noteq> 215)
         then char_of (n + 32) else c)"

definition lower :: "string \<Rightarrow> string" where
  "lower s = map lower_char s"

text \<open>The characters \<open>str.strip()\<close> removes: those for which \<open>str.isspace\<close> holds.\<close>

definition is_space :: "char \<Rightarrow> bool" where
  "is_space c =
     (let n = (of_char c :: nat)
      in (9 \<le> n \<and> n \<le> 13) \<or> (28 \<le> n \<and> n \<le> 32) \<or> n = 133 \<or> n = 160)"

text \<open>\<open>s.strip(chars)\<close>: drop the characters of the class from both ends.\<close>

definition strip_chars :: "(char \<Rightarrow> bool) \<Rightarrow> string \<Rightarrow> string" where
  "strip_chars P s = rev (dropWhile P (rev (dropWhile P s)))"

definition strip :: "string \<Rightarrow> string" where
  "strip s = strip_chars is_space s"

definition is_dash :: "char \<Rightarrow> bool" where
  "is_dash c = (c = CHR ''-'')"

text \<open>Decimal rendering of a non-negative integer, as \<open>str(n)\<close> and \<open>f"{n}"\<close> give it.\<close>

definition digit_char :: "nat \<Rightarrow> char" where
  "digit_char d = ''0123456789'' ! d"

fun dec :: "nat \<Rightarrow> string" where
  "dec n = (if n < 10 then [digit_char n] else dec (n div 10) @ [digit_char (n mod 10)])"

declare dec.simps [simp del]

section \<open>Clock\<close>

text \<open>
  \<open>datetime.now(timezone.utc)\<close> reads the clock; the model takes the value read as an
  argument of the operation that reads it.
\<close>

record datetime =
  year :: nat
  month :: nat
  day :: nat
  hour :: nat
  minute :: nat
  second :: nat
  microsecond :: nat

definition zfill2 :: "nat \<Rightarrow> string" where
  "zfill2 n = (if n < 10 then CHR ''0'' # dec n else dec n)"

text \<open>\<open>strftime('%Y%m%d%H%M%S')\<close>.\<close>

definition strftime_compact :: "datetime \<Rightarrow> string" where
  "strftime_compact t =
     dec (year t) @ zfill2 (month t) @ zfill2 (day t) @
     zfill2 (hour t) @ zfill2 (minute t) @ zfill2 (second t)"

section \<open>Identifier slugger\<close>

text \<open>The character class \<open>[a-z0-9]\<close> of \<open>_SLUGIFY_RE\<close>.\<close>

definition slug_char :: "char \<Rightarrow> bool" where
  "slug_char c =
     (let n = (of_char c :: nat)
      in (97 \<le> n \<and> n \<le> 122) \<or> (48 \<le> n \<and> n \<le> 57))"

text \<open>
  \<open>_SLUGIFY_RE.sub("-", s)\<close> with the pattern \<open>[^a-z0-9]+\<close>: the scan goes left to
  right; a character of the class is copied; at a character outside the class the greedy
  \<open>+\<close> swallows every following character outside the class and the match is replaced by
  one \<open>-\<close>.
\<close>

function slugify_sub :: "string \<Rightarrow> string" where
  "slugify_sub [] = []"
| "slugify_sub (c # cs) =
     (if slug_char c then c # slugify_sub cs
      else CHR ''-'' # slugify_sub (dropWhile (\<lambda>x. \<not> slug_char x) cs))"
  by pat_completeness auto
termination
  by (relation "measure length") (auto simp: le_imp_less_Suc length_dropWhile_le)

definition slugify :: "datetime \<Rightarrow> string \<Rightarrow> string" where
  "slugify now v =
     (let slug = strip_chars is_dash (slugify_sub (lower v))
      in if slug \<noteq> [] then slug else ''voice-'' @ strftime_compact now)"

subsection \<open>The slugger as the specification words it\<close>

text \<open>
  The maximal runs of a string with respect to a character class: consecutive characters
  stay together exactly as long as they agree on membership in the class.
\<close>

fun runs :: "('a \<Rightarrow> bool) \<Rightarrow> 'a list \<Rightarrow> 'a list list" where
  "runs P [] = []"
| "runs P [x] = [[x]]"
| "runs P (x # y # ys) =
     (if P x = P y
      then (case runs P (y # ys) of [] \<Rightarrow> [[x]] | r # rs \<Rightarrow> (x # r) # rs)
      else [x] # runs P (y # ys))"

text \<open>
  Lower-case the input, replace every maximal run of characters outside \<open>[a-z0-9]\<close> by
  a single \<open>-\<close>, trim \<open>-\<close> at both ends; when nothing is left, fall back to
  \<open>voice-\<close> followed by the compact UTC timestamp.
\<close>

definition replace_run :: "string \<Rightarrow> string" where
  "replace_run r = (if slug_char (hd r) then r else ''-'')"

definition slugify_spec :: "datetime \<Rightarrow> string \<Rightarrow> string" where
  "slugify_spec now v =
     (let replaced = concat (map replace_run (runs slug_char (lower v)));
          trimmed = strip_chars is_dash replaced
      in if trimmed = [] then ''voice-'' @ strftime_compact now else trimmed)"

section \<open>Data model\<close>

text \<open>\<open>app.models.Voice\<close>; the field \<open>id\<close> is written \<open>id'\<close>.\<close>

record voice =
  id' :: string
  name :: string
  path :: string
  created_at :: datetime

text \<open>A JSON document as \<open>json.loads\<close> returns it and \<open>json.dumps\<close> takes it.\<close>

datatype json =
    JNull
  | JBool bool
  | JNum int
  | JStr string
  | JArr "json list"
  | JObj "(string \<times> json) list"

text \<open>What \<open>read_text\<close> of a file gives \<open>json.loads\<close>: a JSON document or something else.\<close>

datatype file_text = NotJson | Json json

text \<open>
  Raised exceptions are values: an \<open>HTTPException\<close> with its status code and detail,
  or any other Python exception with its class name and message.
\<close>

datatype error =
    HTTPException nat string
  | PyError string string

text \<open>
  A path lies under the voices root (\<open>settings.voices_dir\<close>), under the output root
  (\<open>settings.output_dir\<close>) or elsewhere; the string is the path relative to its root,
  compared literally.
\<close>

datatype fpath = InVoices string | InOutput string | Elsewhere string

text \<open>
  Functions of the libraries the code calls whose results no claim depends on:
  \<open>Path(s).suffix\<close>, \<open>str\<close> of a \<open>datetime\<close> (what \<open>json.dumps(..., default=str)\<close>
  writes) and pydantic's validation of a \<open>datetime\<close> field.
\<close>

record lib =
  path_suffix :: "string \<Rightarrow> string"
  datetime_str :: "datetime \<Rightarrow> string"
  parse_datetime :: "json \<Rightarrow> datetime option"

text \<open>The fields of \<open>app.config.Settings\<close> that the modelled code reads.\<close>

record settings =
  model_dir :: string
  cache_dir :: string
  modelscope_cache_dir :: string
  metadata_dir :: fpath
  metadata_tmp :: fpath
  default_voice_name :: string
  default_voice_id :: string
  default_voice_source :: "string option"

text \<open>The handle \<open>IndexTTS2(...)\<close> returns, with the two attributes the service reads.\<close>

record handle =
  h_device :: "string option"
  h_version :: "string option"

text \<open>Invocations of collaborators, logged in the order they happen.\<close>

datatype call =
    CallGetVoice "string option"
  | CallAbsoluteVoicePath string
  | CallImport
  | CallLoadModel
  | CallInfer fpath string fpath
  | CallPostProcess fpath fpath

text \<open>
  The state of the process and of the disk: the files and directories, the contents of
  the metadata file (\<open>None\<close> when it is absent), \<open>VoiceManager._voices\<close> as an
  insertion-ordered dictionary, the three attributes of \<open>TTSService\<close>, and the log of
  collaborator invocations.
\<close>

record state =
  files :: "fpath \<rightharpoonup> string"
  dirs :: "fpath set"
  metadata :: "file_text option"
  voices :: "(string \<times> voice) list"
  model :: "handle option"
  device :: "string option"
  model_version :: "string option"
  calls :: "call list"

definition exists_path :: "state \<Rightarrow> fpath \<Rightarrow> bool" where
  "exists_path st p = (p \<in> dom (files st) \<or> p \<in> dirs st)"

text \<open>\<open>d[k] = v\<close> on a Python dictionary: an existing key keeps its position.\<close>

fun dict_set :: "('k \<times> 'v) list \<Rightarrow> 'k \<Rightarrow> 'v \<Rightarrow> ('k \<times> 'v) list" where
  "dict_set [] k v = [(k, v)]"
| "dict_set ((k', v') # kvs) k v =
     (if k' = k then (k, v) # kvs else (k', v') # dict_set kvs k v)"

text \<open>A JSON object read by \<open>json.loads\<close> is a dictionary: of a repeated key the last wins.\<close>

definition obj_get :: "(string \<times> json) list \<Rightarrow> string \<Rightarrow> json option" where
  "obj_get kvs k = map_of (rev kvs) k"

definition get_str :: "(string \<times> json) list \<Rightarrow> string \<Rightarrow> string option" where
  "get_str kvs k = (case obj_get kvs k of Some (JStr s) \<Rightarrow> Some s | _ \<Rightarrow> None)"

section \<open>Settings\<close>

text \<open>\<open>Settings.ensure_directories\<close>.\<close>

definition ensure_directories :: "settings \<Rightarrow> state \<Rightarrow> state" where
  "ensure_directories S st =
     st\<lparr>dirs := dirs st \<union>
        {Elsewhere (model_dir S), InVoices [], InOutput [], Elsewhere (cache_dir S),
         Elsewhere (modelscope_cache_dir S), metadata_dir S}\<rparr>"

section \<open>Voice registry\<close>

text \<open>
  \<open>Voice(**item)\<close>: the item has to be a mapping, the fields \<open>id\<close>, \<open>name\<close> and
  \<open>path\<close> have to be present and strings, \<open>created_at\<close> has to be present and pass the
  validation of a \<open>datetime\<close>; further keys are ignored. \<open>None\<close> stands for the
  exception that \<open>_load\<close> catches.
\<close>

definition parse_voice :: "lib \<Rightarrow> json \<Rightarrow> voice option" where
  "parse_voice L item =
     (case item of
        JObj kvs \<Rightarrow>
          (case get_str kvs ''id'' of None \<Rightarrow> None | Some i \<Rightarrow>
           case get_str kvs ''name'' of None \<Rightarrow> None | Some n \<Rightarrow>
           case get_str kvs ''path'' of None \<Rightarrow> None | Some p \<Rightarrow>
           case obj_get kvs ''created_at'' of None \<Rightarrow> None | Some t \<Rightarrow>
           case parse_datetime L t of None \<Rightarrow> None | Some ts \<Rightarrow>
             Some \<lparr>id' = i, name = n, path = p, created_at = ts\<rparr>)
      | _ \<Rightarrow> None)"

text \<open>The loop of \<open>_load\<close> over the items, \<open>acc\<close> being the local \<open>voices\<close>.\<close>

fun load_items :: "lib \<Rightarrow> state \<Rightarrow> json list \<Rightarrow> (string \<times> voice) list \<Rightarrow> (string \<times> voice) list" where
  "load_items L st [] acc = acc"
| "load_items L st (item # items) acc =
     (case parse_voice L item of
        None \<Rightarrow> load_items L st items acc
      | Some v \<Rightarrow>
          if exists_path st (InVoices (path v))
          then load_items L st items (dict_set acc (id' v) v)
          else load_items L st items acc)"

text \<open>
  What \<open>for item in data.get("voices", [])\<close> iterates over: the elements of an array,
  the keys of an object, the characters of a string; any other value is not iterable.
\<close>

definition iter_json :: "json \<Rightarrow> error + json list" where
  "iter_json j =
     (case j of
        JArr xs \<Rightarrow> Inr xs
      | JObj kvs \<Rightarrow> Inr (map JStr (rev (remdups (rev (map fst kvs)))))
      | JStr s \<Rightarrow> Inr (map (\<lambda>c. JStr [c]) s)
      | _ \<Rightarrow> Inl (PyError ''TypeError'' ''object is not iterable''))"

definition load :: "lib \<Rightarrow> state \<Rightarrow> (error + unit) \<times> state" where
  "load L st =
     (case metadata st of
        None \<Rightarrow> (Inr (), st\<lparr>voices := []\<rparr>)
      | Some NotJson \<Rightarrow> (Inl (PyError ''JSONDecodeError'' ''not a JSON document''), st)
      | Some (Json data) \<Rightarrow>
          (case data of
             JObj kvs \<Rightarrow>
               (case iter_json (case obj_get kvs ''voices'' of None \<Rightarrow> JArr [] | Some x \<Rightarrow> x) of
                  Inl e \<Rightarrow> (Inl e, st)
                | Inr items \<Rightarrow> (Inr (), st\<lparr>voices := load_items L st items []\<rparr>))
           | _ \<Rightarrow> (Inl (PyError ''AttributeError'' ''get''), st)))"

text \<open>\<open>voice.model_dump()\<close> as \<open>json.dumps(..., default=str)\<close> writes it.\<close>

definition model_dump :: "lib \<Rightarrow> voice \<Rightarrow> json" where
  "model_dump L v =
     JObj [(''id'', JStr (id' v)), (''name'', JStr (name v)), (''path'', JStr (path v)),
           (''created_at'', JStr (datetime_str L (created_at v)))]"

text \<open>
  \<open>_save\<close>: the payload is written to the temporary file, which then replaces the
  metadata file; afterwards the temporary path is gone.
\<close>

definition save :: "lib \<Rightarrow> settings \<Rightarrow> state \<Rightarrow> state" where
  "save L S st =
     st\<lparr>metadata :=
          Some (Json (JObj [(''voices'', JArr (map (\<lambda>kv. model_dump L (snd kv)) (voices st)))])),
        files := (files st)(metadata_tmp S := None)\<rparr>"

text \<open>The final component of a path.\<close>

definition basename :: "string \<Rightarrow> string" where
  "basename p = rev (takeWhile (\<lambda>c. c \<noteq> CHR ''/'') (rev p))"

text \<open>
  \<open>_seed_default_voice\<close>. A source that exists as a directory gets as far as
  \<open>shutil.copy2\<close>, which raises.
\<close>

definition seed_default_voice ::
  "lib \<Rightarrow> settings \<Rightarrow> datetime \<Rightarrow> state \<Rightarrow> (error + unit) \<times> state" where
  "seed_default_voice L S now st =
     (case default_voice_source S of
        None \<Rightarrow> (Inr (), st)
      | Some source \<Rightarrow>
          if \<not> exists_path st (Elsewhere source) then (Inr (), st)
          else
            (let st1 = st\<lparr>dirs := insert (InVoices (default_voice_id S)) (dirs st)\<rparr>
             in case files st (Elsewhere source) of
                  None \<Rightarrow> (Inl (PyError ''IsADirectoryError'' source), st1)
                | Some bytes \<Rightarrow>
                    (let rel = default_voice_id S @ ''/'' @ basename source;
                         st2 = st1\<lparr>files := (files st1)(InVoices rel \<mapsto> bytes)\<rparr>;
                         v = \<lparr>id' = default_voice_id S, name = default_voice_name S,
                              path = rel, created_at = now\<rparr>;
                         st3 = st2\<lparr>voices := dict_set (voices st2) (default_voice_id S) v\<rparr>
                     in (Inr (), save L S st3))))"

definition bootstrap :: "lib \<Rightarrow> settings \<Rightarrow> datetime \<Rightarrow> state \<Rightarrow> (error + unit) \<times> state" where
  "bootstrap L S now st =
     (case load L (ensure_directories S st) of
        (Inl e, st1) \<Rightarrow> (Inl e, st1)
      | (Inr u, st1) \<Rightarrow>
          if voices st1 = [] then seed_default_voice L S now st1 else (Inr (), st1))"

text \<open>\<open>VoiceManager.__init__\<close>: an empty dictionary, then \<open>bootstrap\<close>.\<close>

definition new_manager :: "lib \<Rightarrow> settings \<Rightarrow> datetime \<Rightarrow> state \<Rightarrow> (error + unit) \<times> state" where
  "new_manager L S now st = bootstrap L S now (st\<lparr>voices := []\<rparr>)"

definition list_voices :: "state \<Rightarrow> voice list" where
  "list_voices st = map snd (voices st)"

definition get_voice :: "settings \<Rightarrow> state \<Rightarrow> string option \<Rightarrow> error + voice" where
  "get_voice S st voice_id =
     (let vid = (case voice_id of None \<Rightarrow> default_voice_id S | Some i \<Rightarrow> i)
      in case map_of (voices st) vid of
           None \<Rightarrow> Inl (HTTPException 404 ''Voice not found'')
         | Some v \<Rightarrow> Inr v)"

text \<open>\<open>file_path.relative_to(self.settings.voices_dir)\<close>.\<close>

definition relative_to_voices :: "fpath \<Rightarrow> error + string" where
  "relative_to_voices p =
     (case p of
        InVoices r \<Rightarrow> Inr r
      | _ \<Rightarrow> Inl (PyError ''ValueError'' ''not in the subpath of the voices directory''))"

definition register_voice ::
  "lib \<Rightarrow> settings \<Rightarrow> datetime \<Rightarrow> state \<Rightarrow> string \<Rightarrow> string \<Rightarrow> fpath \<Rightarrow> (error + voice) \<times> state" where
  "register_voice L S now st voice_id nm file_path =
     (case relative_to_voices file_path of
        Inl e \<Rightarrow> (Inl e, st)
      | Inr rel_path \<Rightarrow>
          (let v = \<lparr>id' = voice_id, name = nm, path = rel_path, created_at = now\<rparr>
           in (Inr v, save L S (st\<lparr>voices := dict_set (voices st) (id' v) v\<rparr>))))"

text \<open>
  The loop of \<open>add_voice\<close> that looks for a free identifier, on its two variables
  \<open>counter\<close> and \<open>candidate\<close>; \<open>keys\<close> are the keys of \<open>_voices\<close>.
\<close>

function free_candidate :: "string list \<Rightarrow> string \<Rightarrow> nat \<Rightarrow> string \<Rightarrow> string" where
  "free_candidate keys slug counter candidate =
     (if candidate \<in> set keys
      then free_candidate keys slug (counter + 1) (slug @ ''-'' @ dec (counter + 1))
      else candidate)"
  by pat_completeness auto

text \<open>
  The loop ends: a candidate that is a key is no longer than the keys are, which bounds
  the counter it was built from.
\<close>

lemma dec_bound: "n < 10 ^ length (dec n)"
proof (induction n rule: dec.induct)
  case (1 n)
  show ?case
  proof (cases "n < 10")
    case True
    then show ?thesis by (simp add: dec.simps [of n])
  next
    case False
    from "1.IH" [OF False] have "n div 10 < 10 ^ length (dec (n div 10))" .
    then have "n < 10 * 10 ^ length (dec (n div 10))" by simp
    then show ?thesis using False by (simp add: dec.simps [of n])
  qed
qed

lemma length_le_sum_list: "k \<in> set ks \<Longrightarrow> length k \<le> sum_list (map length ks)"
  by (induction ks) auto

lemma candidate_counter_bound:
  assumes "slug @ ''-'' @ dec c \<in> set keys"
  shows "c < 10 ^ sum_list (map length keys)"
proof -
  have "length (slug @ ''-'' @ dec c) \<le> sum_list (map length keys)"
    using assms by (rule length_le_sum_list)
  then have "length (dec c) \<le> sum_list (map length keys)" by simp
  then have "(10::nat) ^ length (dec c) \<le> 10 ^ sum_list (map length keys)"
    by (intro power_increasing) simp_all
  with dec_bound [of c] show ?thesis by (rule less_le_trans)
qed

termination free_candidate
proof (relation "measure (\<lambda>(keys, slug, counter, candidate).
          if candidate \<in> set keys then 2 + (10 ^ sum_list (map length keys) - counter) else 0)")
  show "wf (measure (\<lambda>(keys, slug, counter, candidate).
          if candidate \<in> set keys then 2 + (10 ^ sum_list (map length keys) - counter) else 0))"
    by simp
next
  fix keys :: "string list" and slug :: string and counter :: nat and candidate :: string
  assume "candidate \<in> set keys"
  then show "((keys, slug, counter + 1, slug @ ''-'' @ dec (counter + 1)),
              (keys, slug, counter, candidate))
       \<in> measure (\<lambda>(keys, slug, counter, candidate).
          if candidate \<in> set keys then 2 + (10 ^ sum_list (map length keys) - counter) else 0)"
    using candidate_counter_bound [of slug "counter + 1" keys] by auto
qed

declare free_candidate.simps [simp del]

text \<open>\<open>fastapi.UploadFile\<close>: the client's file name, if any, and the bytes.\<close>

record upload =
  filename :: "string option"
  content :: string

text \<open>\<open>Path(upload.filename or "voice.wav").suffix or ".wav"\<close>.\<close>

definition upload_suffix :: "lib \<Rightarrow> upload \<Rightarrow> string" where
  "upload_suffix L up =
     (let given = (case filename up of None \<Rightarrow> ''voice.wav''
                   | Some f \<Rightarrow> if f = [] then ''voice.wav'' else f)
      in if path_suffix L given = [] then ''.wav'' else path_suffix L given)"

text \<open>\<open>_resolve_target\<close>: the directory of the voice is created, the path is returned.\<close>

definition resolve_target :: "state \<Rightarrow> string \<Rightarrow> string \<Rightarrow> fpath \<times> state" where
  "resolve_target st voice_id fname =
     (InVoices (voice_id @ ''/'' @ fname), st\<lparr>dirs := insert (InVoices voice_id) (dirs st)\<rparr>)"

text \<open>
  \<open>add_voice\<close>. The clock is read twice: by \<open>_slugify\<close> for its fallback and by
  \<open>register_voice\<close> for \<open>created_at\<close>.
\<close>

definition add_voice ::
  "lib \<Rightarrow> settings \<Rightarrow> datetime \<Rightarrow> datetime \<Rightarrow> state \<Rightarrow> upload \<Rightarrow> string \<Rightarrow> (error + voice) \<times> state" where
  "add_voice L S t_slug t_reg st up voice_name =
     (if strip voice_name = []
      then (Inl (HTTPException 400 ''voice_name must not be empty''), st)
      else
        (let slug = slugify t_slug voice_name;
             voice_id = free_candidate (map fst (voices st)) slug 1 slug;
             fname = ''prompt'' @ upload_suffix L up;
             (target_file, st1) = resolve_target st voice_id fname;
             st2 = st1\<lparr>files := (files st1)(target_file \<mapsto> content up)\<rparr>
         in register_voice L S t_reg st2 voice_id (strip voice_name) target_file))"

definition absolute_voice_path :: "state \<Rightarrow> voice \<Rightarrow> error + fpath" where
  "absolute_voice_path st v =
     (if \<not> exists_path st (InVoices (path v))
      then Inl (HTTPException 404 ''Voice prompt file missing'')
      else Inr (InVoices (path v)))"

section \<open>Audio post-processing and synthesis\<close>

text \<open>\<open>app.models.GenerateRequest\<close> and \<open>GenerateResponse\<close>; floats are reals.\<close>

record generate_request =
  req_text :: string
  req_voice_id :: "string option"
  req_speed :: real
  req_pitch :: real

record generate_response =
  resp_voice_id :: string
  audio_path :: string
  audio_url :: string

text \<open>
  What the synthesis model does with the output path it is given: it raises or returns
  a path (\<open>None\<close> for a falsy return value), and in both cases it may have written bytes
  at the output path.
\<close>

datatype infer_outcome =
    InferRaised error "string option"
  | InferReturned "fpath option" "string option"

text \<open>
  What \<open>soundfile.write\<close> does with its destination: it writes the encoded file, or it
  raises, leaving the destination untouched (\<open>None\<close>) or holding what it had written so far.
\<close>

datatype write_outcome =
    Written string
  | WriteFailed error "string option"

text \<open>
  The collaborators during one call of the service: the import of \<open>indextts.infer_v2\<close>
  (the message of the \<open>ImportError\<close>, if any), the constructor \<open>IndexTTS2\<close>,
  \<open>uuid.uuid4().hex\<close>, \<open>model.infer\<close>, and of the audio libraries \<open>librosa.load\<close>,
  \<open>time_stretch\<close>, \<open>pitch_shift\<close> and \<open>soundfile.write\<close>.
\<close>

record collab =
  import_error :: "string option"
  construct :: "error + handle"
  uuid_hex :: string
  infer :: "fpath \<Rightarrow> string \<Rightarrow> fpath \<Rightarrow> infer_outcome"
  librosa_load :: "string \<Rightarrow> error + (real list \<times> nat)"
  time_stretch :: "real list \<Rightarrow> real \<Rightarrow> error + real list"
  pitch_shift :: "real list \<Rightarrow> nat \<Rightarrow> real \<Rightarrow> error + real list"
  sf_write :: "real list \<Rightarrow> nat \<Rightarrow> write_outcome"

text \<open>\<open>str(exc)\<close>.\<close>

fun error_str :: "error \<Rightarrow> string" where
  "error_str (HTTPException code detail) = detail"
| "error_str (PyError cls msg) = msg"

text \<open>\<open>math.isclose(a, b, rel_tol=..., abs_tol=...)\<close>.\<close>

definition isclose :: "real \<Rightarrow> real \<Rightarrow> real \<Rightarrow> real \<Rightarrow> bool" where
  "isclose a b rel_tol abs_tol = (\<bar>a - b\<bar> \<le> max (rel_tol * max \<bar>a\<bar> \<bar>b\<bar>) abs_tol)"

definition write_opt :: "state \<Rightarrow> fpath \<Rightarrow> string option \<Rightarrow> state" where
  "write_opt st p left =
     (case left of None \<Rightarrow> st | Some bytes \<Rightarrow> st\<lparr>files := (files st)(p \<mapsto> bytes)\<rparr>)"

text \<open>\<open>apply_speed_and_pitch\<close> of \<open>app.utils.audio\<close>.\<close>

definition apply_speed_and_pitch ::
  "collab \<Rightarrow> state \<Rightarrow> fpath \<Rightarrow> fpath \<Rightarrow> real \<Rightarrow> real \<Rightarrow> (error + (fpath \<times> nat)) \<times> state" where
  "apply_speed_and_pitch C st source destination speed pitch =
     (case files st source of
        None \<Rightarrow> (Inl (PyError ''LibsndfileError'' ''Error opening the source''), st)
      | Some bytes \<Rightarrow>
          (case librosa_load C bytes of
             Inl e \<Rightarrow> (Inl e, st)
           | Inr (y, sr) \<Rightarrow>
               if y = [] then (Inl (PyError ''ValueError'' ''Audio prompt is empty.''), st)
               else
                 (case (if \<not> isclose speed 1 (1 / 1000) 0 then time_stretch C y speed else Inr y) of
                    Inl e \<Rightarrow> (Inl e, st)
                  | Inr y1 \<Rightarrow>
                      (case (if \<not> isclose pitch 0 (1 / 10 ^ 9) (1 / 1000)
                             then pitch_shift C y1 sr pitch else Inr y1) of
                         Inl e \<Rightarrow> (Inl e, st)
                       | Inr y2 \<Rightarrow>
                           (case sf_write C y2 sr of
                              Written bytes' \<Rightarrow>
                                (Inr (destination, sr), write_opt st destination (Some bytes'))
                            | WriteFailed e left \<Rightarrow>
                                (Inl e, write_opt st destination left))))))"

text \<open>\<open>Path.unlink(missing_ok=True)\<close>: a directory cannot be unlinked.\<close>

definition unlink_missing_ok :: "state \<Rightarrow> fpath \<Rightarrow> (error + unit) \<times> state" where
  "unlink_missing_ok st p =
     (if p \<in> dom (files st) then (Inr (), st\<lparr>files := (files st)(p := None)\<rparr>)
      else if p \<in> dirs st then (Inl (PyError ''IsADirectoryError'' ''unlink''), st)
      else (Inr (), st))"

text \<open>\<open>Path.replace(target)\<close>: the file or directory moves to the target.\<close>

definition replace :: "state \<Rightarrow> fpath \<Rightarrow> fpath \<Rightarrow> (error + unit) \<times> state" where
  "replace st src dst =
     (case files st src of
        Some bytes \<Rightarrow> (Inr (), st\<lparr>files := ((files st)(src := None))(dst \<mapsto> bytes)\<rparr>)
      | None \<Rightarrow>
          if src \<in> dirs st then (Inr (), st\<lparr>dirs := insert dst (dirs st - {src})\<rparr>)
          else (Inl (PyError ''FileNotFoundError'' ''replace''), st))"

definition log_call :: "call \<Rightarrow> state \<Rightarrow> state" where
  "log_call c st = st\<lparr>calls := calls st @ [c]\<rparr>"

text \<open>
  \<open>TTSService.ensure_model_loaded\<close>. Both tests of \<open>self._model\<close> read the same
  attribute; the variables of the process environment it sets are not part of the state.
\<close>

definition ensure_model_loaded :: "collab \<Rightarrow> settings \<Rightarrow> state \<Rightarrow> (error + unit) \<times> state" where
  "ensure_model_loaded C S st =
     (if model st \<noteq> None then (Inr (), st)
      else if model st \<noteq> None then (Inr (), st)
      else
        (let st1 = log_call CallImport st
         in case import_error C of
              Some msg \<Rightarrow> (Inl (HTTPException 500 (''Failed to import IndexTTS2: '' @ msg)), st1)
            | None \<Rightarrow>
                (let st2 = log_call CallLoadModel (ensure_directories S st1)
                 in case construct C of
                      Inl e \<Rightarrow> (Inl e, st2)
                    | Inr h \<Rightarrow>
                        (Inr (), st2\<lparr>model := Some h, device := h_device h,
                                     model_version := h_version h\<rparr>))))"

definition is_model_loaded :: "state \<Rightarrow> bool" where
  "is_model_loaded st = (model st \<noteq> None)"

text \<open>The part of \<open>generate\<close> after the model has returned an existing path.\<close>

definition finish_output ::
  "collab \<Rightarrow> state \<Rightarrow> fpath \<Rightarrow> fpath \<Rightarrow> real \<Rightarrow> real \<Rightarrow> (error + unit) \<times> state" where
  "finish_output C st generated_path final_output speed pitch =
     (if \<bar>speed - 1\<bar> > 1 / 1000 \<or> \<bar>pitch\<bar> > 1 / 1000
      then
        (case apply_speed_and_pitch C (log_call (CallPostProcess generated_path final_output) st)
                generated_path final_output speed pitch of
           (r, st1) \<Rightarrow>
             (case unlink_missing_ok st1 generated_path of
                (Inl e, st2) \<Rightarrow> (Inl e, st2)
              | (Inr u, st2) \<Rightarrow>
                  (case r of Inl e \<Rightarrow> (Inl e, st2) | Inr d \<Rightarrow> (Inr (), st2))))
      else replace st generated_path final_output)"

text \<open>
  \<open>TTSService.generate\<close> up to the test of the path the model returned: its result is
  the voice and that path.
\<close>

definition synthesize_raw ::
  "collab \<Rightarrow> settings \<Rightarrow> state \<Rightarrow> generate_request \<Rightarrow> (error + (voice \<times> fpath)) \<times> state" where
  "synthesize_raw C S st payload =
     (if req_text payload = [] \<or> strip (req_text payload) = []
      then (Inl (HTTPException 400 ''text must not be empty''), st)
      else
        (let st0 = log_call (CallGetVoice (req_voice_id payload)) st
         in case get_voice S st0 (req_voice_id payload) of
              Inl e \<Rightarrow> (Inl e, st0)
            | Inr v \<Rightarrow>
                (let st1 = log_call (CallAbsoluteVoicePath (id' v)) st0
                 in case absolute_voice_path st1 v of
                      Inl e \<Rightarrow> (Inl e, st1)
                    | Inr voice_path \<Rightarrow>
                        (case ensure_model_loaded C S st1 of
                           (Inl e, st2) \<Rightarrow> (Inl e, st2)
                         | (Inr u, st2) \<Rightarrow>
                             if model st2 = None
                             then (Inl (HTTPException 500 ''Model failed to load''), st2)
                             else
                               (let st3 = st2\<lparr>dirs := insert (InOutput []) (dirs st2)\<rparr>;
                                    raw_output = InOutput (uuid_hex C @ ''_raw.wav'');
                                    st4 = log_call (CallInfer voice_path (req_text payload) raw_output) st3
                                in case infer C voice_path (req_text payload) raw_output of
                                     InferRaised e left \<Rightarrow>
                                       (Inl (HTTPException 500 (''Inference failed: '' @ error_str e)),
                                        write_opt st4 raw_output left)
                                   | InferReturned ret left \<Rightarrow>
                                       (let st5 = write_opt st4 raw_output left
                                        in case ret of
                                             None \<Rightarrow>
                                               (Inl (HTTPException 500
                                                  ''Model did not return a valid audio path''), st5)
                                           | Some generated_path \<Rightarrow>
                                               if \<not> exists_path st5 generated_path
                                               then (Inl (HTTPException 500
                                                  ''Model did not return a valid audio path''), st5)
                                               else (Inr (v, generated_path), st5)))))))"

text \<open>\<open>TTSService.generate\<close>: the first part, then the output is finished.\<close>

definition generate ::
  "collab \<Rightarrow> settings \<Rightarrow> state \<Rightarrow> generate_request \<Rightarrow> (error + generate_response) \<times> state" where
  "generate C S st payload =
     (case synthesize_raw C S st payload of
        (Inl e, st5) \<Rightarrow> (Inl e, st5)
      | (Inr (v, generated_path), st5) \<Rightarrow>
          (case finish_output C st5 generated_path (InOutput (uuid_hex C @ ''.wav''))
                  (req_speed payload) (req_pitch payload) of
             (Inl e, st6) \<Rightarrow> (Inl e, st6)
           | (Inr u, st6) \<Rightarrow>
               (Inr \<lparr>resp_voice_id = id' v, audio_path = uuid_hex C @ ''.wav'',
                     audio_url = []\<rparr>, st6)))"

section \<open>Invariant and reachable states\<close>

text \<open>Every key of \<open>_voices\<close> is the \<open>id\<close> of the voice stored under it.\<close>

definition key_consistent :: "(string \<times> voice) list \<Rightarrow> bool" where
  "key_consistent vs = list_all (\<lambda>kv. id' (snd kv) = fst kv) vs"

text \<open>
  The states a process can be in: the manager is constructed on some disk, and then its
  public operations and those of the service run in any order, while other processes may
  change the files and directories (the metadata file is the registry's own).
\<close>

inductive reachable :: "lib \<Rightarrow> settings \<Rightarrow> state \<Rightarrow> bool" for L :: lib and S :: settings where
  constructed: "new_manager L S now st0 = (r, st) \<Longrightarrow> reachable L S st"
| bootstrapped: "reachable L S st \<Longrightarrow> bootstrap L S now st = (r, st') \<Longrightarrow> reachable L S st'"
| registered:
    "reachable L S st \<Longrightarrow> register_voice L S now st voice_id nm file_path = (rv, st')
     \<Longrightarrow> reachable L S st'"
| added:
    "reachable L S st \<Longrightarrow> add_voice L S t_slug t_reg st up voice_name = (rv, st')
     \<Longrightarrow> reachable L S st'"
| model_ensured:
    "reachable L S st \<Longrightarrow> ensure_model_loaded C S st = (r, st') \<Longrightarrow> reachable L S st'"
| generated:
    "reachable L S st \<Longrightarrow> generate C S st payload = (rg, st') \<Longrightarrow> reachable L S st'"
| disk_changed:
    "reachable L S st \<Longrightarrow> reachable L S (st\<lparr>files := fs, dirs := ds\<rparr>)"

section \<open>Sample values\<close>

text \<open>
  The defaults of \<open>app.config.Settings\<close>: the metadata file is \<open>voices.json\<close> in the
  voices root, so that its temporary file is \<open>voices.tmp\<close> there.
\<close>

definition default_settings :: settings where
  "default_settings =
     \<lparr>model_dir = ''/app/models'', cache_dir = ''/app/models/hf_cache'',
      modelscope_cache_dir = ''/app/models/modelscope_cache'',
      metadata_dir = InVoices [], metadata_tmp = InVoices ''voices.tmp'',
      default_voice_name = ''Default'', default_voice_id = ''default'',
      default_voice_source = Some ''examples/voice_01.wav''\<rparr>"

text \<open>A reading of the clock, an instance of the library functions, a disk and an upload.\<close>

definition sample_time :: datetime where
  "sample_time =
     \<lparr>year = 2024, month = 1, day = 2, hour = 3, minute = 4, second = 5, microsecond = 6\<rparr>"

definition sample_lib :: lib where
  "sample_lib =
     \<lparr>path_suffix =
        (\<lambda>s. if CHR ''.'' \<in> set s
              then CHR ''.'' # rev (takeWhile (\<lambda>c. c \<noteq> CHR ''.'') (rev s)) else []),
      datetime_str = strftime_compact,
      parse_datetime = (\<lambda>j. case j of JStr s \<Rightarrow> Some sample_time | _ \<Rightarrow> None)\<rparr>"

definition fresh_state :: state where
  "fresh_state =
     \<lparr>files = [Elsewhere ''examples/voice_01.wav'' \<mapsto> ''RIFF''], dirs = {},
      metadata = None, voices = [], model = None, device = None, model_version = None,
      calls = []\<rparr>"

definition sample_upload :: upload where
  "sample_upload = \<lparr>filename = Some ''voice.wav'', content = ''RIFFdata''\<rparr>"


text \<open>
  States for running the model: after construction on the sample disk, after one more
  voice was added, the same disk seen by a new instance once the file of the default
  voice was deleted, and a disk whose metadata file holds malformed records only.
\<close>

definition seeded_state :: state where
  "seeded_state = snd (new_manager sample_lib default_settings sample_time fresh_state)"




text \<open>The sample disk without the bundled sample.\<close>

definition no_sample_state :: state where
  "no_sample_state = fresh_state\<lparr>files := Map.empty\<rparr>"

text \<open>The number of times the constructor of the model was called.\<close>

definition load_count :: "state \<Rightarrow> nat" where
  "load_count st = length (filter (\<lambda>c. c = CallLoadModel) (calls st))"

text \<open>
  A request, a model handle, collaborators that all succeed, and the seeded state with
  the model loaded.
\<close>

definition sample_request :: generate_request where
  "sample_request = \<lparr>req_text = ''hello'', req_voice_id = None, req_speed = 12 / 10, req_pitch = 0\<rparr>"

definition sample_handle :: handle where
  "sample_handle = \<lparr>h_device = Some ''cpu'', h_version = Some ''2.0''\<rparr>"

definition sample_collab :: collab where
  "sample_collab =
     \<lparr>import_error = None, construct = Inr sample_handle, uuid_hex = ''abc'',
      infer = (\<lambda>prompt txt out. InferReturned (Some out) (Some ''RIFFraw'')),
      librosa_load = (\<lambda>bytes. Inr ([1, 2], 22050)),
      time_stretch = (\<lambda>y rate. Inr y),
      pitch_shift = (\<lambda>y sr steps. Inr y),
      sf_write = (\<lambda>y sr. Written ''RIFFfinal'')\<rparr>"

definition loaded_state :: state where
  "loaded_state = seeded_state\<lparr>model := Some sample_handle\<rparr>"

section \<open>Properties of the slugger\<close>

text \<open>
  \<open>runs\<close> really cuts a string into its maximal runs: the runs concatenate to the
  string, each is non-empty and of one kind, and neighbouring runs are of different kinds.
\<close>

fun alternating :: "('a \<Rightarrow> bool) \<Rightarrow> 'a list list \<Rightarrow> bool" where
  "alternating P [] = True"
| "alternating P [r] = True"
| "alternating P (r # s # rs) = (P (hd r) \<noteq> P (hd s) \<and> alternating P (s # rs))"

lemma runs_not_Nil: "xs \<noteq> [] \<Longrightarrow> runs P xs \<noteq> []"
  by (induction P xs rule: runs.induct) (auto split: list.splits)

lemma runs_Cons_not_Nil: "runs P (x # xs) \<noteq> []"
  by (simp add: runs_not_Nil)

lemma runs_hd: "runs P (x # xs) = r # rs \<Longrightarrow> r \<noteq> [] \<and> hd r = x"
  by (induction P "x # xs" arbitrary: x xs r rs rule: runs.induct)
    (auto split: list.splits if_splits)

lemma concat_runs: "concat (runs P xs) = xs"
  by (induction P xs rule: runs.induct) (auto split: list.splits simp: runs_Cons_not_Nil)

lemma runs_homogeneous:
  "r \<in> set (runs P xs) \<Longrightarrow> r \<noteq> [] \<and> (\<forall>x \<in> set r. P x = P (hd r))"
proof (induction P xs arbitrary: r rule: runs.induct)
  case (3 P x y ys)
  show ?case
  proof (cases "P x = P y")
    case True
    obtain q qs where q: "runs P (y # ys) = q # qs"
      using runs_Cons_not_Nil [of P y ys] by (cases "runs P (y # ys)") auto
    have hq: "q \<noteq> [] \<and> hd q = y" using runs_hd [OF q] .
    from "3.prems" True q have "r = x # q \<or> r \<in> set qs" by auto
    then show ?thesis
    proof
      assume r: "r = x # q"
      have "q \<in> set (runs P (y # ys))" using q by simp
      from "3.IH"(1) [OF True this] hq True r show ?thesis by auto
    next
      assume "r \<in> set qs"
      then have "r \<in> set (runs P (y # ys))" using q by simp
      from "3.IH"(1) [OF True this] show ?thesis .
    qed
  next
    case False
    with "3.prems" have "r = [x] \<or> r \<in> set (runs P (y # ys))" by auto
    then show ?thesis using "3.IH"(2) [OF False] by auto
  qed
qed auto

lemma runs_alternating: "alternating P (runs P xs)"
proof (induction P xs rule: runs.induct)
  case (3 P x y ys)
  obtain q qs where q: "runs P (y # ys) = q # qs"
    using runs_Cons_not_Nil [of P y ys] by (cases "runs P (y # ys)") auto
  have hq: "q \<noteq> [] \<and> hd q = y" using runs_hd [OF q] .
  show ?case
  proof (cases "P x = P y")
    case True
    from "3.IH"(1) [OF True] q have "alternating P (q # qs)" by simp
    then have "alternating P ((x # q) # qs)" using hq True by (cases qs) auto
    then show ?thesis using True q by simp
  next
    case False
    from "3.IH"(2) [OF False] q hq False show ?thesis by simp
  qed
qed auto

text \<open>The scan of the regular expression replaces exactly the maximal runs outside the class.\<close>

lemma slugify_sub_runs: "slugify_sub s = concat (map replace_run (runs slug_char s))"
proof (induction slug_char s rule: runs.induct)
  case (3 x y ys)
  obtain q qs where q: "runs slug_char (y # ys) = q # qs"
    using runs_Cons_not_Nil [of slug_char y ys] by (cases "runs slug_char (y # ys)") auto
  have hq: "q \<noteq> [] \<and> hd q = y" using runs_hd [OF q] .
  show ?case
  proof (cases "slug_char x = slug_char y")
    case True
    note ih = "3.hyps"(1) [OF True]
    show ?thesis
    proof (cases "slug_char x")
      case sx: True
      then show ?thesis using True ih q hq by (simp add: replace_run_def)
    next
      case sx: False
      then have "slugify_sub (x # y # ys) = slugify_sub (y # ys)" using True by simp
      then show ?thesis using True ih q hq sx by (simp add: replace_run_def)
    qed
  next
    case False
    note ih = "3.hyps"(2) [OF False]
    show ?thesis using False ih by (cases "slug_char x") (auto simp: replace_run_def)
  qed
qed (auto simp: replace_run_def)

lemma digit_char_digit: "d < 10 \<Longrightarrow> digit_char d \<in> set ''0123456789''"
  unfolding digit_char_def by (rule nth_mem) simp

lemma dec_digits: "set (dec n) \<subseteq> set ''0123456789''"
proof (induction n rule: dec.induct)
  case (1 n)
  show ?case
  proof (cases "n < 10")
    case True
    then show ?thesis using digit_char_digit [of n] by (simp add: dec.simps [of n])
  next
    case False
    have "n mod 10 < 10" by simp
    from digit_char_digit [OF this] "1.IH" [OF False] False show ?thesis
      by (simp add: dec.simps [of n])
  qed
qed

lemma zfill2_digits: "set (zfill2 n) \<subseteq> set ''0123456789''"
  using dec_digits [of n] by (simp add: zfill2_def)

lemma strftime_compact_digits: "set (strftime_compact t) \<subseteq> set ''0123456789''"
  using dec_digits [of "year t"] zfill2_digits [of "month t"] zfill2_digits [of "day t"]
    zfill2_digits [of "hour t"] zfill2_digits [of "minute t"] zfill2_digits [of "second t"]
  by (simp add: strftime_compact_def)

text \<open>
  Claim C4. For every input string and every reading of the clock, \<open>_slugify\<close> returns
  what the specification describes: the lower-cased input with every maximal run of
  characters outside \<open>[a-z0-9]\<close> replaced by one \<open>-\<close> and with \<open>-\<close> trimmed at both
  ends, or, when that is empty, \<open>voice-\<close> followed by the timestamp, which consists of
  decimal digits only; the result is never empty.
\<close>

theorem slugify_meets_spec:
  "slugify now v = slugify_spec now v
   \<and> slugify now v \<noteq> []
   \<and> (strip_chars is_dash (concat (map replace_run (runs slug_char (lower v)))) = []
        \<longrightarrow> slugify now v = ''voice-'' @ strftime_compact now)
   \<and> set (strftime_compact now) \<subseteq> set ''0123456789''"
proof -
  have refines: "slugify now v = slugify_spec now v"
    by (simp add: slugify_def slugify_spec_def slugify_sub_runs Let_def)
  have nonempty: "slugify now v \<noteq> []"
    by (simp add: slugify_def Let_def)
  have fallback: "strip_chars is_dash (concat (map replace_run (runs slug_char (lower v)))) = []
        \<longrightarrow> slugify now v = ''voice-'' @ strftime_compact now"
    by (simp add: slugify_def slugify_sub_runs Let_def)
  from refines nonempty fallback strftime_compact_digits [of now] show ?thesis
    by blast
qed

theorem slugify_meets_spec_witness:
  "slugify_spec \<lparr>year = 2024, month = 1, day = 2, hour = 3, minute = 4, second = 5,
        microsecond = 6\<rparr> ''New Voice'' = ''new-voice''
   \<and> slugify_spec \<lparr>year = 2024, month = 1, day = 2, hour = 3, minute = 4, second = 5,
        microsecond = 6\<rparr> ''?!  --'' = ''voice-20240102030405''"
proof -
  let ?t = "\<lparr>year = 2024, month = 1, day = 2, hour = 3, minute = 4, second = 5,
        microsecond = 6\<rparr>"
  have a: "slugify ?t ''New Voice'' = ''new-voice''" by code_simp
  have b: "slugify ?t ''?!  --'' = ''voice-20240102030405''" by code_simp
  from slugify_meets_spec [of ?t "''New Voice''"] a
  have a': "slugify_spec ?t ''New Voice'' = ''new-voice''" by simp
  from slugify_meets_spec [of ?t "''?!  --''"] b
  have b': "slugify_spec ?t ''?!  --'' = ''voice-20240102030405''" by simp
  from a' b' show ?thesis by simp
qed

section \<open>Properties of the voice registry\<close>

lemma dropWhile_Nil_iff: "dropWhile P s = [] \<longleftrightarrow> (\<forall>c \<in> set s. P c)"
  by (induction s) auto

lemma strip_chars_Nil_iff: "strip_chars P s = [] \<longleftrightarrow> (\<forall>c \<in> set s. P c)"
proof
  assume "strip_chars P s = []"
  then have e: "dropWhile P (rev (dropWhile P s)) = []" by (simp add: strip_chars_def)
  show "\<forall>c \<in> set s. P c"
  proof (cases "dropWhile P s")
    case Nil
    then show ?thesis by (simp add: dropWhile_Nil_iff)
  next
    case (Cons a as)
    then have "\<not> P a" using hd_dropWhile [of P s] by simp
    moreover have "a \<in> set (rev (dropWhile P s))" using Cons by simp
    ultimately show ?thesis using e by (auto simp: dropWhile_Nil_iff)
  qed
next
  assume "\<forall>c \<in> set s. P c"
  then show "strip_chars P s = []" by (auto simp: strip_chars_def dest: set_dropWhileD)
qed


lemma keys_dict_set: "fst ` set (dict_set kvs k v) = insert k (fst ` set kvs)"
  by (induction kvs k v rule: dict_set.induct) (simp_all add: insert_commute)

lemma distinct_dict_set: "distinct (map fst kvs) \<Longrightarrow> distinct (map fst (dict_set kvs k v))"
  by (induction kvs k v rule: dict_set.induct) (auto simp: keys_dict_set)


lemma key_consistent_dict_set:
  "key_consistent vs \<Longrightarrow> id' v = k \<Longrightarrow> key_consistent (dict_set vs k v)"
  by (induction vs k v rule: dict_set.induct) (auto simp: key_consistent_def)




lemma voices_save: "voices (save L S st) = voices st"
  by (simp add: save_def)

lemma voices_log_call: "voices (log_call c st) = voices st"
  by (simp add: log_call_def)

lemma voices_ensure_directories: "voices (ensure_directories S st) = voices st"
  by (simp add: ensure_directories_def)

lemma voices_write_opt: "voices (write_opt st p left) = voices st"
  by (simp add: write_opt_def split: option.splits)

lemma voices_apply_speed_and_pitch:
  "voices (snd (apply_speed_and_pitch C st src dst sp pt)) = voices st"
  by (simp add: apply_speed_and_pitch_def voices_write_opt
      split: option.splits sum.splits prod.splits write_outcome.splits)

lemma voices_unlink: "voices (snd (unlink_missing_ok st p)) = voices st"
  by (simp add: unlink_missing_ok_def)

lemma voices_replace: "voices (snd (replace st src dst)) = voices st"
  by (simp add: replace_def split: option.splits)

lemma voices_finish_output: "voices (snd (finish_output C st g f sp pt)) = voices st"
proof (cases "\<bar>sp - 1\<bar> > 1 / 1000 \<or> \<bar>pt\<bar> > 1 / 1000")
  case True
  obtain r st1 where a: "apply_speed_and_pitch C (log_call (CallPostProcess g f) st) g f sp pt = (r, st1)"
    by (cases "apply_speed_and_pitch C (log_call (CallPostProcess g f) st) g f sp pt")
  obtain u st2 where b: "unlink_missing_ok st1 g = (u, st2)"
    by (cases "unlink_missing_ok st1 g")
  have "voices st1 = voices st"
    using voices_apply_speed_and_pitch [of C "log_call (CallPostProcess g f) st" g f sp pt] a
    by (simp add: voices_log_call)
  moreover have "voices st2 = voices st1" using voices_unlink [of st1 g] b by simp
  ultimately show ?thesis using True a b
    by (simp add: finish_output_def split: sum.splits)
next
  case False
  then show ?thesis by (simp add: finish_output_def voices_replace)
qed

lemma voices_ensure_model_loaded: "voices (snd (ensure_model_loaded C S st)) = voices st"
  by (simp add: ensure_model_loaded_def Let_def voices_log_call voices_ensure_directories
      split: option.splits sum.splits)

lemma ensure_model_loaded_voices:
  "ensure_model_loaded C S st = (r, st') \<Longrightarrow> voices st' = voices st"
  using voices_ensure_model_loaded [of C S st] by simp

lemma finish_output_voices:
  "finish_output C st g f sp pt = (r, st') \<Longrightarrow> voices st' = voices st"
  using voices_finish_output [of C st g f sp pt] by simp

lemma voices_synthesize_raw: "voices (snd (synthesize_raw C S st p)) = voices st"
  by (auto simp: synthesize_raw_def Let_def voices_log_call voices_write_opt
      split: sum.splits option.splits prod.splits infer_outcome.splits
      dest!: ensure_model_loaded_voices)

lemma synthesize_raw_voices:
  "synthesize_raw C S st p = (r, st') \<Longrightarrow> voices st' = voices st"
  using voices_synthesize_raw [of C S st p] by simp

lemma voices_generate: "voices (snd (generate C S st p)) = voices st"
  by (auto simp: generate_def split: sum.splits prod.splits
      dest!: synthesize_raw_voices finish_output_voices)

definition dict_ok :: "(string \<times> voice) list \<Rightarrow> bool" where
  "dict_ok vs = (key_consistent vs \<and> distinct (map fst vs))"

lemma dict_ok_Nil: "dict_ok []"
  by (simp add: dict_ok_def key_consistent_def)

lemma dict_ok_dict_set: "dict_ok vs \<Longrightarrow> id' v = k \<Longrightarrow> dict_ok (dict_set vs k v)"
  by (simp add: dict_ok_def key_consistent_dict_set distinct_dict_set)

lemma dict_ok_load_items: "dict_ok acc \<Longrightarrow> dict_ok (load_items L st items acc)"
  by (induction items arbitrary: acc) (auto simp: dict_ok_dict_set split: option.splits)

lemma load_dict_ok: "load L st = (Inr u, st') \<Longrightarrow> dict_ok (voices st')"
  by (auto simp: load_def dict_ok_Nil dict_ok_load_items
      split: option.splits file_text.splits json.splits sum.splits)

lemma load_failed: "load L st = (Inl e, st') \<Longrightarrow> st' = st"
  by (auto simp: load_def split: option.splits file_text.splits json.splits sum.splits)

lemma seed_dict_ok:
  "dict_ok (voices st) \<Longrightarrow> dict_ok (voices (snd (seed_default_voice L S now st)))"
  by (auto simp: seed_default_voice_def Let_def voices_save dict_ok_dict_set split: option.splits)

lemma bootstrap_dict_ok:
  assumes "dict_ok (voices st)"
  shows "dict_ok (voices (snd (bootstrap L S now st)))"
proof (cases "load L (ensure_directories S st)")
  case (Pair r st1)
  show ?thesis
  proof (cases r)
    case (Inl e)
    with Pair have "st1 = ensure_directories S st" using load_failed by blast
    with Pair Inl assms show ?thesis by (simp add: bootstrap_def voices_ensure_directories)
  next
    case (Inr u)
    with Pair have ok: "dict_ok (voices st1)" using load_dict_ok by blast
    with Pair Inr seed_dict_ok [OF ok, of L S now] show ?thesis by (simp add: bootstrap_def)
  qed
qed

lemma new_manager_dict_ok: "dict_ok (voices (snd (new_manager L S now st)))"
  unfolding new_manager_def by (rule bootstrap_dict_ok) (simp add: dict_ok_Nil)

lemma register_voice_dict_ok:
  "dict_ok (voices st) \<Longrightarrow> dict_ok (voices (snd (register_voice L S now st vid nm p)))"
  by (auto simp: register_voice_def Let_def voices_save dict_ok_dict_set split: sum.splits)

lemma add_voice_unfold:
  assumes "strip nm \<noteq> []"
  shows "add_voice L S t1 t2 st up nm =
     (let vid = free_candidate (map fst (voices st)) (slugify t1 nm) 1 (slugify t1 nm);
          rel = vid @ ''/'' @ ''prompt'' @ upload_suffix L up;
          v = \<lparr>id' = vid, name = strip nm, path = rel, created_at = t2\<rparr>
      in (Inr v, save L S (st\<lparr>dirs := insert (InVoices vid) (dirs st),
                               files := (files st)(InVoices rel \<mapsto> content up),
                               voices := dict_set (voices st) vid v\<rparr>)))"
  using assms
  by (simp add: add_voice_def register_voice_def resolve_target_def relative_to_voices_def Let_def)

lemma add_voice_blank:
  "strip nm = [] \<Longrightarrow> add_voice L S t1 t2 st up nm =
     (Inl (HTTPException 400 ''voice_name must not be empty''), st)"
  by (simp add: add_voice_def)

lemma add_voice_dict_ok:
  assumes "dict_ok (voices st)"
  shows "dict_ok (voices (snd (add_voice L S t1 t2 st up nm)))"
proof (cases "strip nm = []")
  case True
  then show ?thesis using assms by (simp add: add_voice_blank)
next
  case False
  then show ?thesis using assms
    by (simp add: add_voice_unfold Let_def voices_save dict_ok_dict_set)
qed

lemma reachable_dict_ok: "reachable L S st \<Longrightarrow> dict_ok (voices st)"
proof (induction rule: reachable.induct)
  case (constructed now st0 r st)
  then show ?case using new_manager_dict_ok [of L S now st0] by simp
next
  case (bootstrapped st now r st')
  then show ?case using bootstrap_dict_ok [of st L S now] by simp
next
  case (registered st now voice_id nm file_path rv st')
  then show ?case using register_voice_dict_ok [of st L S now voice_id nm file_path] by simp
next
  case (added st t_slug t_reg up voice_name rv st')
  then show ?case using add_voice_dict_ok [of st L S t_slug t_reg up voice_name] by simp
next
  case (model_ensured st C r st')
  then show ?case using voices_ensure_model_loaded [of C S st] by simp
next
  case (generated st C payload rg st')
  then show ?case using voices_generate [of C S st payload] by simp
next
  case (disk_changed st fs ds)
  then show ?case by simp
qed

text \<open>
  Claim C5. For every upload and every display name that is empty or consists of
  whitespace only, \<open>add_voice\<close> raises \<open>HTTPException\<close> with status 400 and leaves
  the whole state as it was: the registry, the metadata file, the files and the
  directories.
\<close>

theorem add_voice_rejects_blank_name:
  "(\<forall>c \<in> set voice_name. is_space c) \<Longrightarrow>
   add_voice L S t_slug t_reg st up voice_name =
     (Inl (HTTPException 400 ''voice_name must not be empty''), st)"
  by (rule add_voice_blank) (simp add: strip_def strip_chars_Nil_iff)

theorem add_voice_rejects_blank_name_witness:
  "add_voice sample_lib default_settings sample_time sample_time fresh_state sample_upload []
     = (Inl (HTTPException 400 ''voice_name must not be empty''), fresh_state)
   \<and> add_voice sample_lib default_settings sample_time sample_time fresh_state sample_upload ''   ''
     = (Inl (HTTPException 400 ''voice_name must not be empty''), fresh_state)"
proof -
  have ws: "\<forall>c \<in> set ''   ''. is_space c" by (simp add: is_space_def)
  have e: "\<forall>c \<in> set ([] :: string). is_space c" by simp
  from add_voice_rejects_blank_name [OF e] add_voice_rejects_blank_name [OF ws]
  show ?thesis by simp
qed






lemma key_consistent_load_items:
  "key_consistent acc \<Longrightarrow> key_consistent (load_items L st items acc)"
  by (induction items arbitrary: acc) (auto simp: key_consistent_dict_set split: option.splits)

lemma key_consistent_Nil: "key_consistent []"
  by (simp add: key_consistent_def)

lemma load_key_consistent: "load L st = (Inr u, st') \<Longrightarrow> key_consistent (voices st')"
  by (auto simp: load_def key_consistent_Nil key_consistent_load_items
      split: option.splits file_text.splits json.splits sum.splits)

lemma seed_key_consistent:
  "key_consistent (voices st) \<Longrightarrow> key_consistent (voices (snd (seed_default_voice L S now st)))"
  by (auto simp: seed_default_voice_def Let_def voices_save key_consistent_dict_set
      split: option.splits)

lemma register_voice_key_consistent:
  "key_consistent (voices st)
   \<Longrightarrow> key_consistent (voices (snd (register_voice L S now st vid nm p)))"
  by (auto simp: register_voice_def Let_def voices_save key_consistent_dict_set split: sum.splits)

lemma add_voice_key_consistent:
  assumes "key_consistent (voices st)"
  shows "key_consistent (voices (snd (add_voice L S t1 t2 st up nm)))"
proof (cases "strip nm = []")
  case True
  then show ?thesis using assms by (simp add: add_voice_blank)
next
  case False
  then show ?thesis using assms
    by (simp add: add_voice_unfold Let_def voices_save key_consistent_dict_set)
qed

lemma reachable_key_consistent: "reachable L S st \<Longrightarrow> key_consistent (voices st)"
  using reachable_dict_ok [of L S st] by (simp add: dict_ok_def)



text \<open>
  Claim C9. In every reachable state each key of the registry is the \<open>id\<close> of the voice
  stored under it; a successful \<open>_load\<close> establishes this whatever the registry was,
  and \<open>_seed_default_voice\<close>, \<open>register_voice\<close> and \<open>add_voice\<close> preserve it.
\<close>

theorem registry_keys_are_ids:
  "(reachable L S st \<longrightarrow> key_consistent (voices st))
   \<and> (load L st = (Inr u, st1) \<longrightarrow> key_consistent (voices st1))
   \<and> (key_consistent (voices st)
        \<longrightarrow> key_consistent (voices (snd (seed_default_voice L S now st))))
   \<and> (key_consistent (voices st)
        \<longrightarrow> key_consistent (voices (snd (register_voice L S now st voice_id nm file_path))))
   \<and> (key_consistent (voices st)
        \<longrightarrow> key_consistent (voices (snd (add_voice L S t_slug t_reg st up voice_name))))"
  using reachable_key_consistent [of L S st] load_key_consistent [of L st u st1]
    seed_key_consistent [of st L S now]
    register_voice_key_consistent [of st L S now voice_id nm file_path]
    add_voice_key_consistent [of st L S t_slug t_reg up voice_name]
  by blast

theorem registry_keys_are_ids_witness:
  "key_consistent (voices (snd (new_manager sample_lib default_settings sample_time fresh_state)))
   \<and> key_consistent (voices (fresh_state\<lparr>voices := []\<rparr>))
   \<and> key_consistent (voices (snd (seed_default_voice sample_lib default_settings sample_time
         (snd (new_manager sample_lib default_settings sample_time fresh_state)))))
   \<and> key_consistent (voices (snd (register_voice sample_lib default_settings sample_time
         (snd (new_manager sample_lib default_settings sample_time fresh_state))
         ''narrator'' ''Narrator'' (InVoices ''narrator/prompt.wav''))))
   \<and> key_consistent (voices (snd (add_voice sample_lib default_settings sample_time sample_time
         (snd (new_manager sample_lib default_settings sample_time fresh_state))
         sample_upload ''New Voice'')))"
proof -
  let ?st = "snd (new_manager sample_lib default_settings sample_time fresh_state)"
  have r: "reachable sample_lib default_settings ?st"
    by (rule reachable.constructed [of _ _ sample_time fresh_state
          "fst (new_manager sample_lib default_settings sample_time fresh_state)"]) simp
  have l: "load sample_lib fresh_state = (Inr (), fresh_state\<lparr>voices := []\<rparr>)"
    by (simp add: load_def fresh_state_def)
  note inst = registry_keys_are_ids [of sample_lib default_settings ?st _ _ sample_time
      "''narrator''" "''Narrator''" "InVoices ''narrator/prompt.wav''" sample_time sample_time
      sample_upload "''New Voice''"]
  from inst r have k: "key_consistent (voices ?st)" by blast
  from registry_keys_are_ids [of sample_lib default_settings fresh_state "()"
      "fresh_state\<lparr>voices := []\<rparr>"] l
  have k0: "key_consistent (voices (fresh_state\<lparr>voices := []\<rparr>))" by blast
  from inst k k0 show ?thesis by blast
qed

section \<open>Persistence of the registry\<close>
















section \<open>Bootstrap\<close>

lemma bootstrap_fresh:
  assumes "metadata st = None"
  shows "bootstrap L S now st
         = seed_default_voice L S now ((ensure_directories S st)\<lparr>voices := []\<rparr>)"
  using assms by (simp add: bootstrap_def load_def ensure_directories_def)

lemma seed_present:
  assumes "voices st = []" and "default_voice_source S = Some src"
    and "files st (Elsewhere src) = Some bytes"
  shows "\<exists>st'. seed_default_voice L S now st = (Inr (), st')
          \<and> voices st' = [(default_voice_id S,
                \<lparr>id' = default_voice_id S, name = default_voice_name S,
                  path = default_voice_id S @ ''/'' @ basename src, created_at = now\<rparr>)]"
  using assms
  by (simp add: seed_default_voice_def exists_path_def Let_def voices_save dom_def)

lemma seed_absent:
  assumes "default_voice_source S = None
           \<or> (\<exists>src. default_voice_source S = Some src \<and> \<not> exists_path st (Elsewhere src))"
  shows "seed_default_voice L S now st = (Inr (), st)"
  using assms by (auto simp: seed_default_voice_def)

text \<open>
  Claim C3. Without a metadata file, \<open>bootstrap\<close> with a default voice source that is
  configured and is a file on disk succeeds and leaves exactly one voice, listed by
  \<open>list_voices\<close>, whose \<open>id\<close> is \<open>default_voice_id\<close>, which is \<open>default\<close> in the
  default settings; when the source is unset or does not exist, \<open>bootstrap\<close> succeeds
  and the registry is empty.
\<close>

theorem bootstrap_seeds_default_voice:
  "(metadata st = None \<and> default_voice_source S = Some src
      \<and> files st (Elsewhere src) = Some bytes
    \<longrightarrow> (\<exists>st' v. bootstrap L S now st = (Inr (), st') \<and> list_voices st' = [v]
          \<and> id' v = default_voice_id S \<and> name v = default_voice_name S
          \<and> map_of (voices st') (default_voice_id S) = Some v))
   \<and> (metadata st = None
       \<and> (default_voice_source S = None
           \<or> (\<exists>src'. default_voice_source S = Some src'
                 \<and> \<not> exists_path (ensure_directories S st) (Elsewhere src')))
    \<longrightarrow> (\<exists>st'. bootstrap L S now st = (Inr (), st') \<and> list_voices st' = []))
   \<and> default_voice_id default_settings = ''default''"
proof (intro conjI impI)
  assume a: "metadata st = None \<and> default_voice_source S = Some src
      \<and> files st (Elsewhere src) = Some bytes"
  let ?st0 = "(ensure_directories S st)\<lparr>voices := []\<rparr>"
  have f: "files ?st0 (Elsewhere src) = Some bytes" using a by (simp add: ensure_directories_def)
  have e: "voices ?st0 = []" by simp
  from seed_present [OF e _ f, of S L now] a obtain st' where
    s: "seed_default_voice L S now ?st0 = (Inr (), st')"
    and v: "voices st' = [(default_voice_id S,
                \<lparr>id' = default_voice_id S, name = default_voice_name S,
                  path = default_voice_id S @ ''/'' @ basename src, created_at = now\<rparr>)]"
    by blast
  have b: "bootstrap L S now st = (Inr (), st')" using a s by (simp add: bootstrap_fresh)
  show "\<exists>st' v. bootstrap L S now st = (Inr (), st') \<and> list_voices st' = [v]
          \<and> id' v = default_voice_id S \<and> name v = default_voice_name S
          \<and> map_of (voices st') (default_voice_id S) = Some v"
    using b v by (simp add: list_voices_def)
next
  assume a: "metadata st = None
       \<and> (default_voice_source S = None
           \<or> (\<exists>src'. default_voice_source S = Some src'
                 \<and> \<not> exists_path (ensure_directories S st) (Elsewhere src')))"
  let ?st0 = "(ensure_directories S st)\<lparr>voices := []\<rparr>"
  have ex: "\<And>p. exists_path ?st0 p = exists_path (ensure_directories S st) p"
    by (simp add: exists_path_def)
  have "seed_default_voice L S now ?st0 = (Inr (), ?st0)"
    using a by (intro seed_absent) (simp add: ex)
  then have "bootstrap L S now st = (Inr (), ?st0)" using a by (simp add: bootstrap_fresh)
  then show "\<exists>st'. bootstrap L S now st = (Inr (), st') \<and> list_voices st' = []"
    by (simp add: list_voices_def)
next
  show "default_voice_id default_settings = ''default''" by (simp add: default_settings_def)
qed

theorem bootstrap_seeds_default_voice_witness:
  "(\<exists>st' v. bootstrap sample_lib default_settings sample_time fresh_state = (Inr (), st')
       \<and> list_voices st' = [v] \<and> id' v = ''default'')
   \<and> (\<exists>st'. bootstrap sample_lib default_settings sample_time no_sample_state = (Inr (), st')
       \<and> list_voices st' = [])
   \<and> (\<exists>st'. bootstrap sample_lib (default_settings\<lparr>default_voice_source := None\<rparr>)
               sample_time fresh_state = (Inr (), st')
       \<and> list_voices st' = [])"
proof -
  have h1: "metadata fresh_state = None
      \<and> default_voice_source default_settings = Some ''examples/voice_01.wav''
      \<and> files fresh_state (Elsewhere ''examples/voice_01.wav'') = Some ''RIFF''"
    by (simp add: fresh_state_def default_settings_def)
  have h2: "metadata no_sample_state = None
       \<and> (default_voice_source default_settings = None
           \<or> (\<exists>src'. default_voice_source default_settings = Some src'
                 \<and> \<not> exists_path (ensure_directories default_settings no_sample_state)
                       (Elsewhere src')))"
    by (simp add: no_sample_state_def fresh_state_def default_settings_def exists_path_def
        ensure_directories_def)
  have h3: "metadata fresh_state = None
       \<and> (default_voice_source (default_settings\<lparr>default_voice_source := None\<rparr>) = None
           \<or> (\<exists>src'. default_voice_source (default_settings\<lparr>default_voice_source := None\<rparr>)
                   = Some src'
                 \<and> \<not> exists_path (ensure_directories
                         (default_settings\<lparr>default_voice_source := None\<rparr>) fresh_state)
                       (Elsewhere src')))"
    by (simp add: fresh_state_def)
  have d: "default_voice_id default_settings = ''default''" by (simp add: default_settings_def)
  from bootstrap_seeds_default_voice [of fresh_state default_settings "''examples/voice_01.wav''"
      "''RIFF''" sample_lib sample_time] h1 d
  have c1: "\<exists>st' v. bootstrap sample_lib default_settings sample_time fresh_state = (Inr (), st')
       \<and> list_voices st' = [v] \<and> id' v = ''default''"
    by metis
  from bootstrap_seeds_default_voice [of no_sample_state default_settings _ _ sample_lib sample_time] h2
  have c2: "\<exists>st'. bootstrap sample_lib default_settings sample_time no_sample_state = (Inr (), st')
       \<and> list_voices st' = []"
    by blast
  from bootstrap_seeds_default_voice [of fresh_state
      "default_settings\<lparr>default_voice_source := None\<rparr>" _ _ sample_lib sample_time] h3
  have c3: "\<exists>st'. bootstrap sample_lib (default_settings\<lparr>default_voice_source := None\<rparr>)
               sample_time fresh_state = (Inr (), st')
       \<and> list_voices st' = []"
    by blast
  from c1 c2 c3 show ?thesis by blast
qed

section \<open>Synthesis service\<close>

lemma synthesize_raw_blank:
  "strip (req_text p) = [] \<Longrightarrow>
   synthesize_raw C S st p = (Inl (HTTPException 400 ''text must not be empty''), st)"
  by (simp add: synthesize_raw_def)

lemma generate_blank:
  "strip (req_text p) = [] \<Longrightarrow>
   generate C S st p = (Inl (HTTPException 400 ''text must not be empty''), st)"
  by (simp add: generate_def synthesize_raw_blank)

lemma strip_Nil_iff: "strip s = [] \<longleftrightarrow> (\<forall>c \<in> set s. is_space c)"
  by (simp add: strip_def strip_chars_Nil_iff)

lemma ensure_model_loaded_calls:
  "\<exists>evs. calls (snd (ensure_model_loaded C S st)) = calls st @ evs"
  by (simp add: ensure_model_loaded_def Let_def log_call_def ensure_directories_def
      split: option.splits sum.splits)

lemma finish_output_calls:
  "\<exists>evs. calls (snd (finish_output C st g f sp pt)) = calls st @ evs"
proof (cases "\<bar>sp - 1\<bar> > 1 / 1000 \<or> \<bar>pt\<bar> > 1 / 1000")
  case True
  let ?st0 = "log_call (CallPostProcess g f) st"
  obtain r st1 where a: "apply_speed_and_pitch C ?st0 g f sp pt = (r, st1)"
    by (cases "apply_speed_and_pitch C ?st0 g f sp pt")
  obtain u st2 where b: "unlink_missing_ok st1 g = (u, st2)"
    by (cases "unlink_missing_ok st1 g")
  have c1: "calls st1 = calls ?st0"
    using a by (auto simp: apply_speed_and_pitch_def write_opt_def
        split: option.splits sum.splits prod.splits write_outcome.splits if_splits)
  have c2: "calls st2 = calls st1"
    using b by (auto simp: unlink_missing_ok_def split: if_splits)
  show ?thesis using True a b c1 c2
    by (simp add: finish_output_def log_call_def split: sum.splits)
next
  case False
  then show ?thesis by (simp add: finish_output_def replace_def split: option.splits)
qed

lemma ensure_model_loaded_effect:
  assumes "ensure_model_loaded C S st = (r, st')"
  shows "\<exists>evs. calls st' = calls st @ evs \<and> set evs \<subseteq> {CallImport, CallLoadModel}"
    and "files st' = files st" and "voices st' = voices st" and "metadata st' = metadata st"
    and "dirs st \<subseteq> dirs st'" and "dirs st' \<subseteq> dirs (ensure_directories S st)"
  using assms
  by (auto simp: ensure_model_loaded_def Let_def log_call_def ensure_directories_def
      split: option.splits sum.splits if_splits)

lemma synthesize_raw_effect:
  assumes run: "synthesize_raw C S st p = (r, st')"
  shows "\<exists>evs. calls st' = calls st @ evs \<and> (\<forall>g f. CallPostProcess g f \<notin> set evs)
           \<and> (strip (req_text p) \<noteq> [] \<longrightarrow> (\<exists>evs'. evs = CallGetVoice (req_voice_id p) # evs'))"
    and "\<forall>q. q \<noteq> InOutput (uuid_hex C @ ''_raw.wav'') \<longrightarrow> files st' q = files st q"
    and "dirs st \<subseteq> dirs st'"
    and "dirs st' \<subseteq> insert (InOutput []) (dirs (ensure_directories S st))"
    and "\<forall>v g. r = Inr (v, g) \<longrightarrow> exists_path st' g"
proof -
  let ?raw = "InOutput (uuid_hex C @ ''_raw.wav'')"
  let ?P = "\<lambda>r st'. (\<exists>evs. calls st' = calls st @ evs \<and> (\<forall>g f. CallPostProcess g f \<notin> set evs)
           \<and> (strip (req_text p) \<noteq> [] \<longrightarrow> (\<exists>evs'. evs = CallGetVoice (req_voice_id p) # evs')))
     \<and> (\<forall>q. q \<noteq> ?raw \<longrightarrow> files st' q = files st q)
     \<and> dirs st \<subseteq> dirs st'
     \<and> dirs st' \<subseteq> insert (InOutput []) (dirs (ensure_directories S st))
     \<and> (\<forall>v g. r = Inr (v, g) \<longrightarrow> exists_path st' g)"
  have "?P r st'"
  proof (cases "req_text p = [] \<or> strip (req_text p) = []")
    case True
    then have b: "strip (req_text p) = []" by (auto simp: strip_def strip_chars_def)
    from run True have "r = Inl (HTTPException 400 ''text must not be empty'')" "st' = st"
      by (simp_all add: synthesize_raw_def)
    then show ?thesis using b by (auto simp: ensure_directories_def)
  next
    case nonblank: False
    let ?st0 = "log_call (CallGetVoice (req_voice_id p)) st"
    show ?thesis
    proof (cases "get_voice S ?st0 (req_voice_id p)")
      case (Inl e)
      with run nonblank have "r = Inl e" "st' = ?st0"
        by (simp_all add: synthesize_raw_def Let_def)
      then show ?thesis using nonblank by (auto simp: log_call_def ensure_directories_def)
    next
      case (Inr v)
      let ?st1 = "log_call (CallAbsoluteVoicePath (id' v)) ?st0"
      show ?thesis
      proof (cases "absolute_voice_path ?st1 v")
        case (Inl e)
        with run nonblank Inr have "r = Inl e" "st' = ?st1"
          by (simp_all add: synthesize_raw_def Let_def)
        then show ?thesis using nonblank by (auto simp: log_call_def ensure_directories_def)
      next
        case vp: (Inr voice_path)
        obtain r2 st2 where en: "ensure_model_loaded C S ?st1 = (r2, st2)"
          by (cases "ensure_model_loaded C S ?st1")
        from ensure_model_loaded_effect [OF en] obtain evs2 where
          c2: "calls st2 = calls ?st1 @ evs2" "set evs2 \<subseteq> {CallImport, CallLoadModel}"
          and f2: "files st2 = files ?st1"
          and d2: "dirs ?st1 \<subseteq> dirs st2" "dirs st2 \<subseteq> dirs (ensure_directories S ?st1)"
          by blast
        have c2': "calls st2 = calls st @ CallGetVoice (req_voice_id p)
                      # CallAbsoluteVoicePath (id' v) # evs2"
          using c2(1) by (simp add: log_call_def)
        have np: "\<forall>g f. CallPostProcess g f \<notin> set evs2" using c2(2) by auto
        have f2': "files st2 = files st" using f2 by (simp add: log_call_def)
        have d2': "dirs st \<subseteq> dirs st2" "dirs st2 \<subseteq> dirs (ensure_directories S st)"
          using d2 by (auto simp: log_call_def ensure_directories_def)
        have base: "?P (Inl e) st2" for e
          using c2' np f2' d2' nonblank by auto
        show ?thesis
        proof (cases r2)
          case (Inl e)
          with run nonblank Inr vp en have eqs: "r = Inl e"
              "st' = st2"
            by (simp_all add: synthesize_raw_def Let_def)
          show ?thesis unfolding eqs by (rule base)
        next
          case r2: (Inr u)
          show ?thesis
          proof (cases "model st2 = None")
            case True
            with run nonblank Inr vp en r2
            have eqs: "r = Inl (HTTPException 500 ''Model failed to load'')"
                "st' = st2"
              by (simp_all add: synthesize_raw_def Let_def)
            show ?thesis unfolding eqs by (rule base)
          next
            case loaded: False
            let ?st4 = "log_call (CallInfer voice_path (req_text p) ?raw)
                          (st2\<lparr>dirs := insert (InOutput []) (dirs st2)\<rparr>)"
            have rest: "(r, st') =
               (case infer C voice_path (req_text p) ?raw of
                  InferRaised e left \<Rightarrow>
                    (Inl (HTTPException 500 (''Inference failed: '' @ error_str e)),
                     write_opt ?st4 ?raw left)
                | InferReturned ret left \<Rightarrow>
                    (case ret of
                       None \<Rightarrow> (Inl (HTTPException 500
                                  ''Model did not return a valid audio path''),
                                write_opt ?st4 ?raw left)
                     | Some generated_path \<Rightarrow>
                         if \<not> exists_path (write_opt ?st4 ?raw left) generated_path
                         then (Inl (HTTPException 500
                                  ''Model did not return a valid audio path''),
                                write_opt ?st4 ?raw left)
                         else (Inr (v, generated_path), write_opt ?st4 ?raw left)))"
              using run nonblank Inr vp en r2 loaded
              by (simp add: synthesize_raw_def Let_def split: infer_outcome.splits option.splits)
            have w: "?P (Inl e) (write_opt ?st4 ?raw left)" for e left
              using c2' np f2' d2' nonblank
              by (cases left) (auto simp: write_opt_def log_call_def)
            have w': "exists_path (write_opt ?st4 ?raw left) g
                      \<Longrightarrow> ?P (Inr (v', g)) (write_opt ?st4 ?raw left)" for v' g left
              using c2' np f2' d2' nonblank
              by (cases left) (auto simp: write_opt_def log_call_def)
            show ?thesis
            proof (cases "infer C voice_path (req_text p) ?raw")
              case (InferRaised e left)
              with rest have eqs: "r = Inl (HTTPException 500 (''Inference failed: '' @ error_str e))"
                  "st' = write_opt ?st4 ?raw left"
                by simp_all
              show ?thesis unfolding eqs by (rule w)
            next
              case (InferReturned ret left)
              show ?thesis
              proof (cases ret)
                case None
                with rest InferReturned
                have eqs: "r = Inl (HTTPException 500 ''Model did not return a valid audio path'')"
                    "st' = write_opt ?st4 ?raw left"
                  by simp_all
                show ?thesis unfolding eqs by (rule w)
              next
                case (Some g)
                show ?thesis
                proof (cases "exists_path (write_opt ?st4 ?raw left) g")
                  case False
                  with rest InferReturned Some
                  have eqs: "r = Inl (HTTPException 500 ''Model did not return a valid audio path'')"
                      "st' = write_opt ?st4 ?raw left"
                    by simp_all
                  show ?thesis unfolding eqs by (rule w)
                next
                  case True
                  with rest InferReturned Some
                  have eqs: "r = Inr (v, g)" "st' = write_opt ?st4 ?raw left" by simp_all
                  show ?thesis unfolding eqs by (rule w' [OF True])
                qed
              qed
            qed
          qed
        qed
      qed
    qed
  qed
  then show "\<exists>evs. calls st' = calls st @ evs \<and> (\<forall>g f. CallPostProcess g f \<notin> set evs)
           \<and> (strip (req_text p) \<noteq> [] \<longrightarrow> (\<exists>evs'. evs = CallGetVoice (req_voice_id p) # evs'))"
    and "\<forall>q. q \<noteq> InOutput (uuid_hex C @ ''_raw.wav'') \<longrightarrow> files st' q = files st q"
    and "dirs st \<subseteq> dirs st'"
    and "dirs st' \<subseteq> insert (InOutput []) (dirs (ensure_directories S st))"
    and "\<forall>v g. r = Inr (v, g) \<longrightarrow> exists_path st' g"
    by blast+
qed

text \<open>
  Claim C6. For every request whose text is empty or consists of whitespace only,
  \<open>generate\<close> raises \<open>HTTPException\<close> with status 400 and the state is as before:
  nothing was logged, so the voice was not looked up, the model was not loaded, nothing
  was synthesised or post-processed. For any other text the voice lookup is logged first.
\<close>

theorem generate_rejects_blank_text:
  "((\<forall>c \<in> set (req_text payload). is_space c) \<longrightarrow>
      generate C S st payload = (Inl (HTTPException 400 ''text must not be empty''), st))
   \<and> (\<not> (\<forall>c \<in> set (req_text payload). is_space c) \<longrightarrow>
      (\<exists>evs. calls (snd (generate C S st payload))
              = calls st @ CallGetVoice (req_voice_id payload) # evs))"
proof (intro conjI impI)
  assume "\<forall>c \<in> set (req_text payload). is_space c"
  then have "strip (req_text payload) = []" by (simp add: strip_Nil_iff)
  then show "generate C S st payload = (Inl (HTTPException 400 ''text must not be empty''), st)"
    by (rule generate_blank)
next
  assume "\<not> (\<forall>c \<in> set (req_text payload). is_space c)"
  then have nb: "strip (req_text payload) \<noteq> []" by (simp add: strip_Nil_iff)
  obtain r5 st5 where s: "synthesize_raw C S st payload = (r5, st5)"
    by (cases "synthesize_raw C S st payload")
  from synthesize_raw_effect(1) [OF s] nb obtain evs where
    c5: "calls st5 = calls st @ CallGetVoice (req_voice_id payload) # evs" by blast
  show "\<exists>evs. calls (snd (generate C S st payload))
              = calls st @ CallGetVoice (req_voice_id payload) # evs"
  proof (cases r5)
    case (Inl e)
    then show ?thesis using s c5 by (simp add: generate_def)
  next
    case (Inr vg)
    obtain v g where vg: "vg = (v, g)" by (cases vg)
    let ?f = "finish_output C st5 g (InOutput (uuid_hex C @ ''.wav''))
                (req_speed payload) (req_pitch payload)"
    from finish_output_calls [of C st5 g "InOutput (uuid_hex C @ ''.wav'')"
        "req_speed payload" "req_pitch payload"]
    obtain evs' where "calls (snd ?f) = calls st5 @ evs'" by blast
    then have "calls (snd ?f) = calls st @ CallGetVoice (req_voice_id payload) # (evs @ evs')"
      using c5 by simp
    moreover have "snd (generate C S st payload) = snd ?f"
      using s Inr vg by (simp add: generate_def split: prod.splits sum.splits)
    ultimately show ?thesis by metis
  qed
qed

theorem generate_rejects_blank_text_witness:
  "generate sample_collab default_settings seeded_state (sample_request\<lparr>req_text := ''  ''\<rparr>)
     = (Inl (HTTPException 400 ''text must not be empty''), seeded_state)
   \<and> generate sample_collab default_settings seeded_state (sample_request\<lparr>req_text := []\<rparr>)
     = (Inl (HTTPException 400 ''text must not be empty''), seeded_state)
   \<and> (\<exists>evs. calls (snd (generate sample_collab default_settings seeded_state sample_request))
              = calls seeded_state @ CallGetVoice None # evs)"
proof -
  have a: "\<forall>c \<in> set (req_text (sample_request\<lparr>req_text := ''  ''\<rparr>)). is_space c"
    by (simp add: is_space_def)
  have b: "\<forall>c \<in> set (req_text (sample_request\<lparr>req_text := []\<rparr>)). is_space c"
    by simp
  have c: "\<not> (\<forall>c \<in> set (req_text sample_request). is_space c)"
    by (simp add: sample_request_def is_space_def)
  have d: "req_voice_id sample_request = None" by (simp add: sample_request_def)
  from generate_rejects_blank_text [of "sample_request\<lparr>req_text := ''  ''\<rparr>" sample_collab
      default_settings seeded_state] a
  have 1: "generate sample_collab default_settings seeded_state (sample_request\<lparr>req_text := ''  ''\<rparr>)
     = (Inl (HTTPException 400 ''text must not be empty''), seeded_state)" by blast
  from generate_rejects_blank_text [of "sample_request\<lparr>req_text := []\<rparr>" sample_collab
      default_settings seeded_state] b
  have 2: "generate sample_collab default_settings seeded_state (sample_request\<lparr>req_text := []\<rparr>)
     = (Inl (HTTPException 400 ''text must not be empty''), seeded_state)" by blast
  from generate_rejects_blank_text [of sample_request sample_collab default_settings seeded_state] c
  have 3: "\<exists>evs. calls (snd (generate sample_collab default_settings seeded_state sample_request))
              = calls seeded_state @ CallGetVoice None # evs" unfolding d by blast
  from 1 2 3 show ?thesis by blast
qed

text \<open>
  Claim C8. With no model loaded and a load that succeeds, \<open>ensure_model_loaded\<close>
  constructs the model once and keeps the handle, and every later call returns at once
  without touching the state, so two calls construct the model exactly once; with a
  model loaded it does nothing. A failing import raises \<open>HTTPException\<close> with status
  500 before the constructor is called, a failing constructor raises its exception after
  exactly one call of the constructor; in both cases no model is stored.
\<close>

theorem ensure_model_loaded_at_most_once:
  "(model st = None \<and> import_error C = None \<and> construct C = Inr h \<longrightarrow>
      (\<exists>st1. ensure_model_loaded C S st = (Inr (), st1) \<and> model st1 = Some h
         \<and> load_count st1 = load_count st + 1
         \<and> (\<forall>C'. ensure_model_loaded C' S st1 = (Inr (), st1))))
   \<and> (model st \<noteq> None \<longrightarrow> ensure_model_loaded C S st = (Inr (), st))
   \<and> (model st = None \<and> import_error C = Some msg \<longrightarrow>
      (\<exists>st1. ensure_model_loaded C S st
               = (Inl (HTTPException 500 (''Failed to import IndexTTS2: '' @ msg)), st1)
         \<and> model st1 = None \<and> load_count st1 = load_count st))
   \<and> (model st = None \<and> import_error C = None \<and> construct C = Inl e \<longrightarrow>
      (\<exists>st1. ensure_model_loaded C S st = (Inl e, st1)
         \<and> model st1 = None \<and> load_count st1 = load_count st + 1))"
  by (simp add: ensure_model_loaded_def Let_def load_count_def log_call_def
      ensure_directories_def)

lemma model_seeded: "model seeded_state = None"
  by code_simp

theorem ensure_model_loaded_at_most_once_witness:
  "(\<exists>st1. ensure_model_loaded sample_collab default_settings seeded_state = (Inr (), st1)
       \<and> model st1 = Some sample_handle
       \<and> load_count st1 = load_count seeded_state + 1
       \<and> ensure_model_loaded sample_collab default_settings st1 = (Inr (), st1))
   \<and> ensure_model_loaded sample_collab default_settings loaded_state = (Inr (), loaded_state)
   \<and> (\<exists>st1. ensure_model_loaded (sample_collab\<lparr>import_error := Some ''no module''\<rparr>)
               default_settings seeded_state
             = (Inl (HTTPException 500 ''Failed to import IndexTTS2: no module''), st1)
       \<and> model st1 = None \<and> load_count st1 = load_count seeded_state)
   \<and> (\<exists>st1. ensure_model_loaded
               (sample_collab\<lparr>construct := Inl (PyError ''RuntimeError'' ''checkpoint missing'')\<rparr>)
               default_settings seeded_state
             = (Inl (PyError ''RuntimeError'' ''checkpoint missing''), st1)
       \<and> model st1 = None \<and> load_count st1 = load_count seeded_state + 1)"
proof -
  have h1: "model seeded_state = None \<and> import_error sample_collab = None
      \<and> construct sample_collab = Inr sample_handle"
    by (simp add: model_seeded sample_collab_def)
  have h2: "model loaded_state \<noteq> None" by (simp add: loaded_state_def)
  have h3: "model seeded_state = None
      \<and> import_error (sample_collab\<lparr>import_error := Some ''no module''\<rparr>) = Some ''no module''"
    by (simp add: model_seeded)
  have h4: "model seeded_state = None
      \<and> import_error (sample_collab\<lparr>construct := Inl (PyError ''RuntimeError'' ''checkpoint missing'')\<rparr>)
          = None
      \<and> construct (sample_collab\<lparr>construct := Inl (PyError ''RuntimeError'' ''checkpoint missing'')\<rparr>)
          = Inl (PyError ''RuntimeError'' ''checkpoint missing'')"
    by (simp add: model_seeded sample_collab_def)
  from ensure_model_loaded_at_most_once [of seeded_state sample_collab sample_handle
      default_settings] h1
  have c1: "\<exists>st1. ensure_model_loaded sample_collab default_settings seeded_state = (Inr (), st1)
       \<and> model st1 = Some sample_handle
       \<and> load_count st1 = load_count seeded_state + 1
       \<and> ensure_model_loaded sample_collab default_settings st1 = (Inr (), st1)"
    by blast
  from ensure_model_loaded_at_most_once [of loaded_state sample_collab _ default_settings] h2
  have c2: "ensure_model_loaded sample_collab default_settings loaded_state = (Inr (), loaded_state)"
    by blast
  from ensure_model_loaded_at_most_once [of seeded_state
      "sample_collab\<lparr>import_error := Some ''no module''\<rparr>" _ default_settings "''no module''"] h3
  have c3: "\<exists>st1. ensure_model_loaded (sample_collab\<lparr>import_error := Some ''no module''\<rparr>)
               default_settings seeded_state
             = (Inl (HTTPException 500 (''Failed to import IndexTTS2: '' @ ''no module'')), st1)
       \<and> model st1 = None \<and> load_count st1 = load_count seeded_state"
    by blast
  from ensure_model_loaded_at_most_once [of seeded_state
      "sample_collab\<lparr>construct := Inl (PyError ''RuntimeError'' ''checkpoint missing'')\<rparr>" _
      default_settings _ "PyError ''RuntimeError'' ''checkpoint missing''"] h4
  have c4: "\<exists>st1. ensure_model_loaded
               (sample_collab\<lparr>construct := Inl (PyError ''RuntimeError'' ''checkpoint missing'')\<rparr>)
               default_settings seeded_state
             = (Inl (PyError ''RuntimeError'' ''checkpoint missing''), st1)
       \<and> model st1 = None \<and> load_count st1 = load_count seeded_state + 1"
    by blast
  from c3 have c3': "\<exists>st1. ensure_model_loaded (sample_collab\<lparr>import_error := Some ''no module''\<rparr>)
               default_settings seeded_state
             = (Inl (HTTPException 500 ''Failed to import IndexTTS2: no module''), st1)
       \<and> model st1 = None \<and> load_count st1 = load_count seeded_state"
    by simp
  from c1 c2 c3' c4 show ?thesis by blast
qed

lemma apply_speed_and_pitch_effect:
  assumes "apply_speed_and_pitch C st src dst sp pt = (r, st')"
  shows "calls st' = calls st" and "dirs st' = dirs st"
    and "\<forall>q. q \<noteq> dst \<longrightarrow> files st' q = files st q"
    and "\<forall>d. r = Inr d \<longrightarrow> files st' dst \<noteq> None"
    and "files st src = None \<longrightarrow> (\<exists>e. r = Inl e) \<and> st' = st"
  using assms
  by (auto simp: apply_speed_and_pitch_def write_opt_def
      split: option.splits sum.splits prod.splits write_outcome.splits if_splits)

lemma apply_speed_and_pitch_failed:
  assumes "apply_speed_and_pitch C st src dst sp pt = (Inl e, st')"
    and "files st' dst \<noteq> files st dst"
  shows "\<exists>y sr b. sf_write C y sr = WriteFailed e (Some b) \<and> files st' dst = Some b"
  using assms
  by (auto simp: apply_speed_and_pitch_def write_opt_def
      split: option.splits sum.splits prod.splits write_outcome.splits if_splits) blast+

lemma unlink_effect:
  assumes "unlink_missing_ok st p = (u, st')"
  shows "calls st' = calls st" and "dirs st' = dirs st" and "files st' p = None \<or> (\<exists>e. u = Inl e)"
    and "\<forall>q. q \<noteq> p \<longrightarrow> files st' q = files st q"
    and "(\<exists>e. u = Inl e) \<longrightarrow> files st p = None \<and> st' = st"
    and "files st' p = None"
  using assms by (auto simp: unlink_missing_ok_def split: if_splits)

end
